theory Spec2Isabelle
  imports Complex_Main "HOL-Library.Multiset" "HOL-Library.Sublist"
begin

section \<open>Data model of \<^verbatim>\<open>process_portfolio.py\<close>\<close>

text \<open>
  The program is a pandas pipeline. A DataFrame is modelled the way pandas stores it:
  column by column. A raw frame, as \<^verbatim>\<open>pd.read_csv\<close> returns it, is the list of its
  columns in header order, each a name and its cells; a cell is the text of the field,
  or \<open>None\<close> for a missing value (pandas' NaN). Every column of a DataFrame has one
  length, the number of rows (\<open>wf_frame\<close>).

  Numbers are modelled as exact rationals with \<open>None\<close> for NaN: the binary
  representation error of the 64-bit floats and the infinities are outside the model.
  A settlement date is a point on the time line (pandas keeps nanoseconds since the
  epoch), with \<open>None\<close> for NaT.
\<close>

type_synonym cell = "string option"

type_synonym raw_frame = "(string \<times> cell list) list"

datatype ttype = SELL | BUY

record clean_row =
  idx :: nat
  settlement_date :: "int option"
  symbol :: "string option"
  stock_name :: "string option"
  quantity :: "rat option"
  price :: "rat option"
  total_amount :: "rat option"
  transaction_type :: "ttype option"

datatype error =
    MissingColumns string
  | DateParseError
  | ReadError
  | FormatCodeOnString
  | RawDirNotFound
  | NoCsvFiles

text \<open>
  What the program needs from pandas and cannot be read off its own source is taken as
  a parameter: reading a file, parsing the text of one date, parsing the text of one
  number, and \<^verbatim>\<open>sort_values('Settlement Date', ascending=False)\<close>.
  \<open>to_datetime1 s = None\<close> says that pandas cannot parse \<open>s\<close> as a date,
  \<open>to_numeric1 s = None\<close> that it cannot parse \<open>s\<close> as a number.
\<close>

record pandas =
  read_csv :: "string \<Rightarrow> error + raw_frame"
  to_datetime1 :: "string \<Rightarrow> int option"
  to_numeric1 :: "string \<Rightarrow> rat option"
  sort_values :: "clean_row list \<Rightarrow> clean_row list"

datatype money = Num "rat option" | Str string

record display_row =
  d_idx :: nat
  d_settlement_date :: "int option"
  d_symbol :: "string option"
  d_stock_name :: "string option"
  d_transaction_type :: "ttype option"
  d_quantity :: "rat option"
  d_price :: money
  d_total_amount :: money

datatype event =
    AvailableColumns "string list"
  | Processing string
  | CleanedSaved string
  | SummarySaved string
  | MostRecent "display_row list"
  | StatsHeader
  | TotalTransactions nat
  | UniqueStocks nat
  | ByTypeHeader
  | TypeCount ttype nat
  | ErrorProcessing string error

section \<open>Strings\<close>

text \<open>Python's \<^verbatim>\<open>str.strip()\<close>: whitespace is removed at both ends (ASCII whitespace).\<close>

definition is_space :: "char \<Rightarrow> bool" where
  "is_space c = (let n = (of_char c :: nat) in (9 \<le> n \<and> n \<le> 13) \<or> (28 \<le> n \<and> n \<le> 32))"

definition strip :: "string \<Rightarrow> string" where
  "strip s = rev (dropWhile is_space (rev (dropWhile is_space s)))"

text \<open>Python's \<^verbatim>\<open>sub in s\<close> on strings: \<open>sub\<close> occurs in \<open>s\<close> as a contiguous run.\<close>

fun py_in :: "string \<Rightarrow> string \<Rightarrow> bool" where
  "py_in sub [] = (sub = [])"
| "py_in sub (c # cs) = (prefix sub (c # cs) \<or> py_in sub cs)"

text \<open>\<^verbatim>\<open>str(x)\<close> of a cell: the text itself, and \<^verbatim>\<open>'nan'\<close> for a missing value.\<close>

definition py_str :: "cell \<Rightarrow> string" where
  "py_str x = (case x of None \<Rightarrow> ''nan'' | Some s \<Rightarrow> s)"

section \<open>Numbers\<close>

text \<open>
  \<^verbatim>\<open>Series.round(2)\<close> is numpy's \<^verbatim>\<open>around\<close>: the value is scaled by 100, rounded
  to the nearest integer by \<^verbatim>\<open>rint\<close> (a tie goes to the even neighbour), and scaled
  back.
\<close>

definition rint :: "rat \<Rightarrow> int" where
  "rint x = (let f = \<lfloor>x\<rfloor>; d = x - of_int f in
     if d < 1 / 2 then f else if 1 / 2 < d then f + 1 else if even f then f else f + 1)"

definition round2 :: "rat \<Rightarrow> rat" where
  "round2 x = of_int (rint (x * 100)) / 100"

definition series_round2 :: "rat option \<Rightarrow> rat option" where
  "series_round2 v = (case v of None \<Rightarrow> None | Some x \<Rightarrow> Some (round2 x))"

text \<open>The product of two float cells: NaN if either factor is NaN.\<close>

definition mul_cells :: "rat option \<Rightarrow> rat option \<Rightarrow> rat option" where
  "mul_cells a b = (case a of None \<Rightarrow> None | Some x \<Rightarrow> (case b of None \<Rightarrow> None | Some y \<Rightarrow> Some (x * y)))"

section \<open>The row normalizer: \<^verbatim>\<open>clean_fidelity_csv\<close>\<close>

definition needed_columns :: "string list" where
  "needed_columns =
     [''Settlement Date'', ''Symbol'', ''Description'', ''Quantity'', ''Price'', ''Action'']"

definition columns :: "raw_frame \<Rightarrow> string list" where
  "columns df = map fst df"

text \<open>\<^verbatim>\<open>df.columns = df.columns.str.strip()\<close>\<close>

definition strip_columns :: "raw_frame \<Rightarrow> raw_frame" where
  "strip_columns df = map (\<lambda>(n, c). (strip n, c)) df"

text \<open>
  \<^verbatim>\<open>df[name]\<close>. The program reads a column only after it has checked that the name
  is among the columns, so the \<^verbatim>\<open>KeyError\<close> of a missing name is never reached; the
  model returns the empty column there.
\<close>

definition column :: "raw_frame \<Rightarrow> string \<Rightarrow> cell list" where
  "column df name = (case map_of df name of None \<Rightarrow> [] | Some c \<Rightarrow> c)"

definition nrows :: "raw_frame \<Rightarrow> nat" where
  "nrows df = (case df of [] \<Rightarrow> 0 | (n, c) # rest \<Rightarrow> length c)"

definition wf_frame :: "raw_frame \<Rightarrow> bool" where
  "wf_frame df = list_all (\<lambda>(n, c). length c = nrows df) df"

text \<open>
  \<^verbatim>\<open>pd.to_datetime(column)\<close>: the column is parsed as a unit. A missing cell becomes
  NaT; a text that cannot be parsed raises, and no column is returned.
\<close>

definition to_datetime :: "(string \<Rightarrow> int option) \<Rightarrow> cell list \<Rightarrow> error + int option list" where
  "to_datetime parse cs =
     (if list_ex (\<lambda>c. case c of None \<Rightarrow> False | Some s \<Rightarrow> parse s = None) cs
      then Inl DateParseError
      else Inr (map (\<lambda>c. case c of None \<Rightarrow> None | Some s \<Rightarrow> parse s) cs))"

text \<open>\<^verbatim>\<open>pd.to_numeric(column, errors='coerce')\<close>, cell by cell: a failure is NaN.\<close>

definition to_numeric :: "(string \<Rightarrow> rat option) \<Rightarrow> cell \<Rightarrow> rat option" where
  "to_numeric parse c = (case c of None \<Rightarrow> None | Some s \<Rightarrow> parse s)"

text \<open>\<^verbatim>\<open>column.str.strip()\<close>, cell by cell: a missing value stays missing.\<close>

definition str_strip :: "cell \<Rightarrow> cell" where
  "str_strip c = (case c of None \<Rightarrow> None | Some s \<Rightarrow> Some (strip s))"

text \<open>
  \<^verbatim>\<open>lambda x: 'SELL' if 'SOLD' in str(x) else 'BUY' if 'BOUGHT' in str(x) else None\<close>
\<close>

definition classify :: "cell \<Rightarrow> ttype option" where
  "classify x =
     (if py_in ''SOLD'' (py_str x) then Some SELL
      else if py_in ''BOUGHT'' (py_str x) then Some BUY
      else None)"

text \<open>
  The cleaned frame before filtering, one row per index label \<open>i\<close> of the raw frame
  (lines 31 to 44): the columns are computed one by one and sit side by side.
\<close>

definition cleaned_row :: "pandas \<Rightarrow> raw_frame \<Rightarrow> int option list \<Rightarrow> nat \<Rightarrow> clean_row" where
  "cleaned_row pd df dates i =
     (let q = to_numeric (to_numeric1 pd) (column df ''Quantity'' ! i);
          p = series_round2 (to_numeric (to_numeric1 pd) (column df ''Price'' ! i))
      in \<lparr> idx = i,
           settlement_date = dates ! i,
           symbol = str_strip (column df ''Symbol'' ! i),
           stock_name = str_strip (column df ''Description'' ! i),
           quantity = q,
           price = p,
           total_amount = series_round2 (mul_cells q p),
           transaction_type = classify (column df ''Action'' ! i) \<rparr>)"

text \<open>\<^verbatim>\<open>cleaned_df.dropna(subset=['Transaction Type'])\<close>\<close>

definition dropna :: "clean_row list \<Rightarrow> clean_row list" where
  "dropna rows = filter (\<lambda>r. transaction_type r \<noteq> None) rows"

text \<open>
  \<open>clean_frame\<close> is the body of \<^verbatim>\<open>clean_fidelity_csv\<close> after the file is read. It
  returns what it printed and either the exception it raised or the cleaned frame.
\<close>

definition clean_frame :: "pandas \<Rightarrow> string \<Rightarrow> raw_frame \<Rightarrow> event list \<times> (error + clean_row list)" where
  "clean_frame pd file_path df0 =
     (let df = strip_columns df0 in
      if \<not> list_all (\<lambda>col. List.member (columns df) col) needed_columns
      then ([AvailableColumns (columns df)], Inl (MissingColumns file_path))
      else (case to_datetime (to_datetime1 pd) (column df ''Settlement Date'') of
              Inl e \<Rightarrow> ([], Inl e)
            | Inr dates \<Rightarrow>
                ([], Inr (sort_values pd
                           (dropna (map (cleaned_row pd df dates) [0..<length dates]))))))"

definition clean_fidelity_csv :: "pandas \<Rightarrow> string \<Rightarrow> event list \<times> (error + clean_row list)" where
  "clean_fidelity_csv pd file_path =
     (case read_csv pd file_path of
        Inl e \<Rightarrow> ([], Inl e)
      | Inr df0 \<Rightarrow> clean_frame pd file_path df0)"

section \<open>Sorting by settlement date\<close>

text \<open>
  The program calls \<^verbatim>\<open>sort_values('Settlement Date', ascending=False)\<close> and leaves
  \<^verbatim>\<open>kind\<close> and \<^verbatim>\<open>na_position\<close> at their defaults, \<^verbatim>\<open>'quicksort'\<close> and
  \<^verbatim>\<open>'last'\<close>. What pandas promises for that call is \<open>sort_values_spec\<close>: the rows
  are rearranged, later dates come first, and rows without a date come last. pandas
  documents \<^verbatim>\<open>'mergesort'\<close> and \<^verbatim>\<open>'stable'\<close> as its only stable kinds, so the order
  of rows with equal dates is no part of the promise.
\<close>

definition date_ge :: "int option \<Rightarrow> int option \<Rightarrow> bool" where
  "date_ge a b =
     (case b of None \<Rightarrow> True | Some y \<Rightarrow> (case a of None \<Rightarrow> False | Some x \<Rightarrow> y \<le> x))"

definition row_ge :: "clean_row \<Rightarrow> clean_row \<Rightarrow> bool" where
  "row_ge a b = date_ge (settlement_date a) (settlement_date b)"

definition sort_values_spec :: "(clean_row list \<Rightarrow> clean_row list) \<Rightarrow> bool" where
  "sort_values_spec srt = (\<forall>rows. mset (srt rows) = mset rows \<and> sorted_wrt row_ge (srt rows))"

text \<open>
  Two sorts that keep the promise. \<open>sort_stable\<close> is an insertion sort that leaves rows
  of equal date in their order (what \<^verbatim>\<open>kind='stable'\<close> would do); \<open>sort_reversing\<close>
  turns the rows of equal date round.
\<close>

fun insert_desc :: "('a \<Rightarrow> 'a \<Rightarrow> bool) \<Rightarrow> 'a \<Rightarrow> 'a list \<Rightarrow> 'a list" where
  "insert_desc ge r [] = [r]"
| "insert_desc ge r (x # xs) = (if ge r x then r # x # xs else x # insert_desc ge r xs)"

definition sort_desc :: "('a \<Rightarrow> 'a \<Rightarrow> bool) \<Rightarrow> 'a list \<Rightarrow> 'a list" where
  "sort_desc ge xs = foldr (insert_desc ge) xs []"

definition sort_stable :: "clean_row list \<Rightarrow> clean_row list" where
  "sort_stable rows = sort_desc row_ge rows"



section \<open>The output formatter: \<^verbatim>\<open>save_transactions_summary\<close>\<close>

text \<open>
  DataFrames are mutable objects, and the formatter assigns to columns. The model keeps
  the frames on a heap (a reference is a position in it) so that which frame an
  assignment changes is visible. In a frame on the heap the two money columns are
  dynamically typed, as in pandas: a cell is a number or a string.

  A written file is modelled by the frame that \<^verbatim>\<open>to_csv\<close> wrote, row for row in the
  frame's order; \<^verbatim>\<open>index=False\<close> leaves the index label out of the text.
\<close>

type_synonym frame = "display_row list"

record state =
  heap :: "frame list"
  files :: "string \<Rightarrow> frame option"
  stdout :: "event list"

definition print :: "event list \<Rightarrow> state \<Rightarrow> state" where
  "print es st = st\<lparr>stdout := stdout st @ es\<rparr>"

definition new_frame :: "frame \<Rightarrow> state \<Rightarrow> nat \<times> state" where
  "new_frame f st = (length (heap st), st\<lparr>heap := heap st @ [f]\<rparr>)"

definition to_csv :: "nat \<Rightarrow> string \<Rightarrow> state \<Rightarrow> state" where
  "to_csv r path st = st\<lparr>files := (files st)(path \<mapsto> heap st ! r)\<rparr>"

text \<open>The DataFrame object that \<^verbatim>\<open>clean_fidelity_csv\<close> returns: every money cell a number.\<close>

definition as_frame_row :: "clean_row \<Rightarrow> display_row" where
  "as_frame_row r =
     \<lparr> d_idx = idx r,
       d_settlement_date = settlement_date r,
       d_symbol = symbol r,
       d_stock_name = stock_name r,
       d_transaction_type = transaction_type r,
       d_quantity = quantity r,
       d_price = Num (price r),
       d_total_amount = Num (total_amount r) \<rparr>"

text \<open>\<^verbatim>\<open>Path(input_filename).stem\<close>: the name without its last suffix.\<close>

definition rfind :: "char \<Rightarrow> string \<Rightarrow> int" where
  "rfind c s =
     (if List.member s c
      then int (length s) - 1 - int (length (takeWhile (\<lambda>x. x \<noteq> c) (rev s)))
      else - 1)"

definition stem :: "string \<Rightarrow> string" where
  "stem name =
     (let i = rfind (CHR ''.'') name
      in if 0 < i \<and> i < int (length name) - 1 then take (nat i) name else name)"

definition clean_path :: "string \<Rightarrow> string" where
  "clean_path input_filename = ''orders/clean/clean_'' @ stem input_filename @ ''.csv''"

definition results_path :: "string \<Rightarrow> string" where
  "results_path input_filename = ''orders/results/summary_'' @ stem input_filename @ ''.csv''"

text \<open>
  Python's \<^verbatim>\<open>f"${x:.2f}"\<close>. A number is printed with two decimals (the decimal
  nearest to the value, a tie going to the even digit); NaN is printed as \<^verbatim>\<open>nan\<close>; the
  format code \<^verbatim>\<open>f\<close> raises on a string.
\<close>

fun digits10 :: "nat \<Rightarrow> string" where
  "digits10 n =
     (if n < 10 then [char_of (48 + n)] else digits10 (n div 10) @ [char_of (48 + n mod 10)])"

definition fmt2 :: "rat \<Rightarrow> string" where
  "fmt2 x =
     (let n = nat (rint (\<bar>x\<bar> * 100))
      in (if x < 0 then ''-'' else []) @ digits10 (n div 100) @ ''.''
           @ [char_of (48 + n mod 100 div 10), char_of (48 + n mod 10)])"

definition dollar :: "rat option \<Rightarrow> string" where
  "dollar v = (case v of None \<Rightarrow> ''$nan'' | Some x \<Rightarrow> ''$'' @ fmt2 x)"

definition currency :: "money \<Rightarrow> error + money" where
  "currency m = (case m of Num v \<Rightarrow> Inr (Str (dollar v)) | Str s \<Rightarrow> Inl FormatCodeOnString)"

text \<open>\<^verbatim>\<open>column.apply(f)\<close>: \<open>f\<close> on every cell in turn; the first exception ends it.\<close>

fun apply_cells :: "('a \<Rightarrow> error + 'b) \<Rightarrow> 'a list \<Rightarrow> error + 'b list" where
  "apply_cells f [] = Inr []"
| "apply_cells f (x # xs) =
     (case f x of
        Inl e \<Rightarrow> Inl e
      | Inr y \<Rightarrow> (case apply_cells f xs of Inl e \<Rightarrow> Inl e | Inr ys \<Rightarrow> Inr (y # ys)))"

text \<open>\<^verbatim>\<open>frame['Price'] = cells\<close> and \<^verbatim>\<open>frame['Total Amount'] = cells\<close>, in place.\<close>

definition set_price :: "nat \<Rightarrow> money list \<Rightarrow> state \<Rightarrow> state" where
  "set_price r cells st =
     st\<lparr>heap := (heap st)[r := map (\<lambda>(row, c). row\<lparr>d_price := c\<rparr>) (zip (heap st ! r) cells)]\<rparr>"

definition set_total_amount :: "nat \<Rightarrow> money list \<Rightarrow> state \<Rightarrow> state" where
  "set_total_amount r cells st =
     st\<lparr>heap := (heap st)[r := map (\<lambda>(row, c). row\<lparr>d_total_amount := c\<rparr>) (zip (heap st ! r) cells)]\<rparr>"

text \<open>
  \<open>save_transactions_summary st df input_filename\<close>: \<open>df\<close> is the reference to the
  cleaned frame. Line 61 writes it to the canonical file. Line 65 builds \<^verbatim>\<open>output_df\<close>,
  a new frame with the seven columns of \<^verbatim>\<open>df\<close>; lines 76 and 77 assign to the columns
  of that new frame; line 81 writes it to the display file.
\<close>

definition save_transactions_summary ::
  "state \<Rightarrow> nat \<Rightarrow> string \<Rightarrow> state \<times> (error + string \<times> string)" where
  "save_transactions_summary st df input_filename =
     (let clean_file = clean_path input_filename;
          st1 = print [CleanedSaved clean_file] (to_csv df clean_file st);
          (output_df, st2) = new_frame (heap st1 ! df) st1
      in case apply_cells currency (map d_price (heap st2 ! output_df)) of
           Inl e \<Rightarrow> (st2, Inl e)
         | Inr prices \<Rightarrow>
             (let st3 = set_price output_df prices st2
              in case apply_cells currency (map d_total_amount (heap st3 ! output_df)) of
                   Inl e \<Rightarrow> (st3, Inl e)
                 | Inr totals \<Rightarrow>
                     (let st4 = set_total_amount output_df totals st3;
                          results_file = results_path input_filename;
                          st5 = print [SummarySaved results_file] (to_csv output_df results_file st4);
                          st6 = print [MostRecent (take 5 (heap st5 ! output_df))] st5
                      in (st6, Inr (clean_file, results_file)))))"

text \<open>
  For stating results: the row of the display frame that lines 65 to 77 make of a
  cleaned row, the currency text in place of the two numbers.
\<close>

definition display_of :: "clean_row \<Rightarrow> display_row" where
  "display_of r =
     (as_frame_row r)\<lparr> d_price := Str (dollar (price r)),
                       d_total_amount := Str (dollar (total_amount r)) \<rparr>"

section \<open>The run over the raw files: \<^verbatim>\<open>process_raw_files\<close>\<close>

record processed =
  p_input :: string
  p_clean :: string
  p_results :: string
  p_transactions :: nat

definition raw_path :: "string \<Rightarrow> string" where
  "raw_path name = ''orders/raw/'' @ name"

text \<open>
  \<^verbatim>\<open>Series.value_counts()\<close>: the values in the order of their first appearance, each
  with the number of its occurrences, then sorted by that number, largest first (values
  that occur equally often stay in the order of their first appearance); missing values
  are not counted.
\<close>

definition first_seen :: "'a list \<Rightarrow> 'a list" where
  "first_seen xs = rev (remdups (rev xs))"

definition value_counts :: "ttype option list \<Rightarrow> (ttype \<times> nat) list" where
  "value_counts vs =
     (let present = concat (map (\<lambda>v. case v of None \<Rightarrow> [] | Some t \<Rightarrow> [t]) vs)
      in sort_desc (\<lambda>a b. snd b \<le> snd a)
           (map (\<lambda>t. (t, count_list present t)) (first_seen present)))"

text \<open>Lines 110 to 119: the statistics are read from the frame behind \<^verbatim>\<open>df\<close>.\<close>

definition statistics :: "frame \<Rightarrow> event list" where
  "statistics rows =
     [StatsHeader,
      TotalTransactions (length rows),
      UniqueStocks (length (first_seen (map d_symbol rows))),
      ByTypeHeader]
     @ map (\<lambda>(t, n). TypeCount t n) (value_counts (map d_transaction_type rows))"

text \<open>
  One turn of the loop of lines 104 to 130, for the file \<open>name\<close> of the raw directory:
  the new state and, when no exception was raised, the entry appended to
  \<^verbatim>\<open>processed_files\<close>. \<^verbatim>\<open>except Exception\<close> catches whatever the body raises, prints
  it and goes on.
\<close>

definition process_file :: "pandas \<Rightarrow> state \<Rightarrow> string \<Rightarrow> state \<times> processed option" where
  "process_file pd st name =
     (let file_path = raw_path name;
          st0 = print [Processing file_path] st
      in case clean_fidelity_csv pd file_path of
           (out, Inl e) \<Rightarrow> (print (out @ [ErrorProcessing file_path e]) st0, None)
         | (out, Inr rows) \<Rightarrow>
             (let (df, st1) = new_frame (map as_frame_row rows) (print out st0)
              in case save_transactions_summary st1 df name of
                   (st2, Inl e) \<Rightarrow> (print [ErrorProcessing file_path e] st2, None)
                 | (st2, Inr (clean_file, results_file)) \<Rightarrow>
                     (let st3 = print (statistics (heap st2 ! df)) st2
                      in (st3, Some \<lparr> p_input = file_path, p_clean = clean_file,
                                      p_results = results_file,
                                      p_transactions = length (heap st3 ! df) \<rparr>))))"

fun process_loop :: "pandas \<Rightarrow> state \<Rightarrow> string list \<Rightarrow> processed list \<Rightarrow> state \<times> processed list" where
  "process_loop pd st [] processed_files = (st, processed_files)"
| "process_loop pd st (name # names) processed_files =
     (case process_file pd st name of
        (st', None) \<Rightarrow> process_loop pd st' names processed_files
      | (st', Some entry) \<Rightarrow> process_loop pd st' names (processed_files @ [entry]))"

text \<open>
  \<open>raw_dir\<close> is \<open>None\<close> when \<^verbatim>\<open>orders/raw\<close> does not exist, and otherwise the names
  that \<^verbatim>\<open>raw_dir.glob('*.csv')\<close> finds.
\<close>

definition process_raw_files ::
  "pandas \<Rightarrow> string list option \<Rightarrow> state \<Rightarrow> state \<times> (error + processed list)" where
  "process_raw_files pd raw_dir st =
     (case raw_dir of
        None \<Rightarrow> (st, Inl RawDirNotFound)
      | Some csv_files \<Rightarrow>
          if csv_files = [] then (st, Inl NoCsvFiles)
          else (case process_loop pd st csv_files [] of (st', ps) \<Rightarrow> (st', Inr ps)))"

section \<open>The specification's reading of rounding\<close>


section \<open>Example inputs\<close>

text \<open>
  A raw directory with three files. \<^verbatim>\<open>a.csv\<close> has the six columns (one header with
  blanks around it), a purchase, a sale with a quantity that is no number, and a
  dividend row. \<^verbatim>\<open>bad.csv\<close> has the header of the specification's missing-column
  scenario. \<^verbatim>\<open>ties.csv\<close> has two purchases settled on one day.
\<close>

definition example_frame :: raw_frame where
  "example_frame =
     [('' Settlement Date '', [Some ''2024-01-05'', Some ''2024-01-09'', None]),
      (''Symbol'', [Some '' AAPL'', Some ''MSFT'', None]),
      (''Description'', [Some ''APPLE INC'', Some ''MICROSOFT CORP '', None]),
      (''Quantity'', [Some ''3'', Some ''abc'', None]),
      (''Price'', [Some ''0.125'', Some ''19.5'', None]),
      (''Action'', [Some ''YOU BOUGHT 10 SHARES'', Some ''YOU SOLD 5 SHARES'',
                    Some ''DIVIDEND RECEIVED''])]"

definition bad_frame :: raw_frame where
  "bad_frame =
     [(''Date'', [Some ''2024-01-05'']),
      (''Sym'', [Some ''AAPL'']),
      (''Qty'', [Some ''3'']),
      (''Price'', [Some ''19.5'']),
      (''Action'', [Some ''YOU BOUGHT 10 SHARES''])]"

definition ties_frame :: raw_frame where
  "ties_frame =
     [(''Settlement Date'', [Some ''2024-01-05'', Some ''2024-01-05'']),
      (''Symbol'', [Some ''AAPL'', Some ''MSFT'']),
      (''Description'', [Some ''APPLE INC'', Some ''MICROSOFT CORP'']),
      (''Quantity'', [Some ''3'', Some ''3'']),
      (''Price'', [Some ''19.5'', Some ''19.5'']),
      (''Action'', [Some ''YOU BOUGHT 3 SHARES'', Some ''YOU BOUGHT 3 SHARES''])]"

definition example_pd :: pandas where
  "example_pd =
     \<lparr> read_csv = (\<lambda>path.
         if path = ''orders/raw/a.csv'' then Inr example_frame
         else if path = ''orders/raw/bad.csv'' then Inr bad_frame
         else if path = ''orders/raw/ties.csv'' then Inr ties_frame
         else Inl ReadError),
       to_datetime1 = map_of [(''2024-01-05'', 20240105), (''2024-01-09'', 20240109)],
       to_numeric1 = map_of [(''3'', 3), (''0.125'', 1 / 8), (''19.5'', 39 / 2)],
       sort_values = sort_stable \<rparr>"



definition example_rows :: "clean_row list" where
  "example_rows =
     [\<lparr> idx = 1, settlement_date = Some 20240109, symbol = Some ''MSFT'',
         stock_name = Some ''MICROSOFT CORP'', quantity = None, price = Some (39 / 2),
         total_amount = None, transaction_type = Some SELL \<rparr>,
      \<lparr> idx = 0, settlement_date = Some 20240105, symbol = Some ''AAPL'',
         stock_name = Some ''APPLE INC'', quantity = Some 3, price = Some (3 / 25),
         total_amount = Some (9 / 25), transaction_type = Some BUY \<rparr>]"


definition empty_state :: state where
  "empty_state = \<lparr> heap = [], files = (\<lambda>path. None), stdout = [] \<rparr>"

text \<open>A state with the cleaned frame of \<^verbatim>\<open>a.csv\<close> on the heap.\<close>

definition example_state :: state where
  "example_state = \<lparr> heap = [map as_frame_row example_rows], files = (\<lambda>path. None), stdout = [] \<rparr>"

section \<open>Facts about the model\<close>

subsection \<open>Substrings and sorting\<close>

lemma py_in_iff: "py_in sub s \<longleftrightarrow> (\<exists>ps ss. s = ps @ sub @ ss)"
proof (induction s)
  case Nil
  then show ?case by auto
next
  case (Cons c cs)
  show ?case
  proof
    assume "py_in sub (c # cs)"
    then consider "prefix sub (c # cs)" | "py_in sub cs" by auto
    then show "\<exists>ps ss. c # cs = ps @ sub @ ss"
    proof cases
      case 1
      then obtain ss where "c # cs = sub @ ss" by (auto simp: prefix_def)
      then have "c # cs = [] @ sub @ ss" by simp
      then show ?thesis by blast
    next
      case 2
      with Cons.IH obtain ps ss where "cs = ps @ sub @ ss" by blast
      then have "c # cs = (c # ps) @ sub @ ss" by simp
      then show ?thesis by blast
    qed
  next
    assume "\<exists>ps ss. c # cs = ps @ sub @ ss"
    then obtain ps ss where eq: "c # cs = ps @ sub @ ss" by blast
    show "py_in sub (c # cs)"
    proof (cases ps)
      case Nil
      with eq have "prefix sub (c # cs)" by (simp add: prefix_def)
      then show ?thesis by simp
    next
      case (Cons p ps')
      with eq have "cs = ps' @ sub @ ss" by simp
      with Cons.IH have "py_in sub cs" by blast
      then show ?thesis by simp
    qed
  qed
qed

lemma mset_insert_desc: "mset (insert_desc ge r xs) = add_mset r (mset xs)"
  by (induction xs) auto

lemma mset_sort_desc: "mset (sort_desc ge xs) = mset xs"
  unfolding sort_desc_def by (induction xs) (auto simp: mset_insert_desc)

lemma set_insert_desc: "set (insert_desc ge r xs) = insert r (set xs)"
  by (induction xs) auto

lemma date_ge_total: "date_ge a b \<or> date_ge b a"
  by (auto simp: date_ge_def split: option.splits)

lemma date_ge_trans: "date_ge a b \<Longrightarrow> date_ge b c \<Longrightarrow> date_ge a c"
  by (auto simp: date_ge_def split: option.splits)

lemma sorted_insert_desc:
  "sorted_wrt row_ge xs \<Longrightarrow> sorted_wrt row_ge (insert_desc row_ge r xs)"
proof (induction xs)
  case Nil
  then show ?case by simp
next
  case (Cons x xs)
  show ?case
  proof (cases "row_ge r x")
    case True
    have "\<forall>y\<in>set xs. row_ge r y"
      using Cons.prems True by (auto simp: row_ge_def intro: date_ge_trans)
    with True Cons.prems show ?thesis by simp
  next
    case False
    then have "row_ge x r" using date_ge_total by (auto simp: row_ge_def)
    with False Cons show ?thesis by (auto simp: set_insert_desc)
  qed
qed

lemma sorted_sort_desc: "sorted_wrt row_ge (sort_desc row_ge xs)"
  unfolding sort_desc_def by (induction xs) (auto intro: sorted_insert_desc)

lemma sort_stable_spec: "sort_values_spec sort_stable"
  by (simp add: sort_values_spec_def sort_stable_def mset_sort_desc sorted_sort_desc)


lemma nrows_strip: "nrows (strip_columns df) = nrows df"
  by (cases df) (auto simp: nrows_def strip_columns_def)

lemma wf_strip: "wf_frame df \<Longrightarrow> wf_frame (strip_columns df)"
  unfolding wf_frame_def nrows_strip by (auto simp: strip_columns_def list_all_iff)

lemma length_column:
  "wf_frame df \<Longrightarrow> List.member (columns df) name \<Longrightarrow> length (column df name) = nrows df"
proof -
  assume wf: "wf_frame df" and m: "List.member (columns df) name"
  from m have "name \<in> fst ` set df" by (simp add: columns_def)
  then obtain c where c: "map_of df name = Some c"
    by (metis domD dom_map_of_conv_image_fst)
  then have "(name, c) \<in> set df" by (rule map_of_SomeD)
  with wf have "length c = nrows df" by (auto simp: wf_frame_def list_all_iff)
  with c show ?thesis by (simp add: column_def)
qed

lemma to_datetime_Inr:
  "to_datetime parse cs = Inr dates \<Longrightarrow>
     length dates = length cs \<and> \<not> list_ex (\<lambda>c. case c of None \<Rightarrow> False | Some s \<Rightarrow> parse s = None) cs"
  by (auto simp: to_datetime_def split: if_splits)

lemma clean_frame_Inr:
  assumes "clean_frame pd file_path df0 = (out, Inr rows)"
  shows "out = [] \<and> list_all (\<lambda>col. List.member (columns (strip_columns df0)) col) needed_columns \<and>
    (\<exists>dates. to_datetime (to_datetime1 pd) (column (strip_columns df0) ''Settlement Date'') = Inr dates \<and>
       rows = sort_values pd (dropna (map (cleaned_row pd (strip_columns df0) dates) [0..<length dates])))"
  using assms by (auto simp: clean_frame_def Let_def split: if_splits sum.splits)

subsection \<open>What a successful normalization returns\<close>

lemma clean_fidelity_csv_Inr:
  assumes "sort_values_spec (sort_values pd)"
    and "read_csv pd file_path = Inr df0"
    and "clean_fidelity_csv pd file_path = (out, Inr rows)"
  obtains dates where
    "to_datetime (to_datetime1 pd) (column (strip_columns df0) ''Settlement Date'') = Inr dates"
    "mset rows = mset (dropna (map (cleaned_row pd (strip_columns df0) dates) [0..<length dates]))"
    "sorted_wrt row_ge rows"
    "out = []"
    "list_all (\<lambda>col. List.member (columns (strip_columns df0)) col) needed_columns"
proof -
  from assms(2,3) have cf: "clean_frame pd file_path df0 = (out, Inr rows)"
    by (simp add: clean_fidelity_csv_def)
  from clean_frame_Inr[OF cf] obtain dates where
    d: "to_datetime (to_datetime1 pd) (column (strip_columns df0) ''Settlement Date'') = Inr dates"
    and r: "rows = sort_values pd (dropna (map (cleaned_row pd (strip_columns df0) dates) [0..<length dates]))"
    and o: "out = []"
    and l: "list_all (\<lambda>col. List.member (columns (strip_columns df0)) col) needed_columns"
    by blast
  from assms(1) r have "mset rows = mset (dropna (map (cleaned_row pd (strip_columns df0) dates) [0..<length dates]))"
    and "sorted_wrt row_ge rows"
    by (simp_all add: sort_values_spec_def)
  with d o l that show thesis by blast
qed

lemma idx_cleaned_row [simp]: "idx (cleaned_row pd df dates i) = i"
  by (simp add: cleaned_row_def Let_def)

lemma transaction_type_cleaned_row [simp]:
  "transaction_type (cleaned_row pd df dates i) = classify (column df ''Action'' ! i)"
  by (simp add: cleaned_row_def Let_def)

lemma set_dropna_cleaned:
  "set (dropna (map (cleaned_row pd df dates) [0..<n])) =
     {cleaned_row pd df dates i | i. i < n \<and> classify (column df ''Action'' ! i) \<noteq> None}"
  by (auto simp: dropna_def)

lemma filter_idx_dropna:
  "filter (\<lambda>r. idx r = i) (dropna (map (cleaned_row pd df dates) [0..<n])) =
     (if i < n \<and> classify (column df ''Action'' ! i) \<noteq> None then [cleaned_row pd df dates i] else [])"
proof (induction n)
  case 0
  then show ?case by (simp add: dropna_def)
next
  case (Suc n)
  then show ?case by (auto simp: dropna_def less_Suc_eq)
qed

lemma ex_idx_dropna:
  "(\<exists>r \<in> set (dropna (map (cleaned_row pd df dates) [0..<n])). idx r = i) \<longleftrightarrow>
     i < n \<and> classify (column df ''Action'' ! i) \<noteq> None"
proof -
  have "(\<exists>r \<in> set (dropna (map (cleaned_row pd df dates) [0..<n])). idx r = i) \<longleftrightarrow>
     filter (\<lambda>r. idx r = i) (dropna (map (cleaned_row pd df dates) [0..<n])) \<noteq> []"
    by (simp add: filter_empty_conv)
  then show ?thesis unfolding filter_idx_dropna by simp
qed

lemma needed_member:
  "list_all (\<lambda>col. List.member cs col) needed_columns \<Longrightarrow> col \<in> set needed_columns \<Longrightarrow> List.member cs col"
  by (simp add: list_all_iff)

lemma length_dates:
  assumes "wf_frame df0"
    and "list_all (\<lambda>col. List.member (columns (strip_columns df0)) col) needed_columns"
    and "to_datetime parse (column (strip_columns df0) ''Settlement Date'') = Inr dates"
  shows "length dates = nrows df0"
proof -
  have "List.member (columns (strip_columns df0)) ''Settlement Date''"
    using assms(2) by (rule needed_member) (simp add: needed_columns_def)
  with wf_strip[OF assms(1)] have "length (column (strip_columns df0) ''Settlement Date'') = nrows df0"
    by (simp add: length_column nrows_strip)
  with to_datetime_Inr[OF assms(3)] show ?thesis by simp
qed

lemma classify_cases:
  "classify c =
     (if (\<exists>ps ss. py_str c = ps @ ''SOLD'' @ ss) then Some SELL
      else if (\<exists>ps ss. py_str c = ps @ ''BOUGHT'' @ ss) then Some BUY
      else None)"
  unfolding classify_def py_in_iff by simp

subsection \<open>The example inputs, evaluated\<close>

text \<open>The example file \<^verbatim>\<open>a.csv\<close>, normalized.\<close>

lemma example_clean:
  "clean_fidelity_csv example_pd ''orders/raw/a.csv'' = ([], Inr example_rows)"
  by code_simp


lemma example_pd_simps:
  "read_csv example_pd ''orders/raw/a.csv'' = Inr example_frame"
  "sort_values example_pd = sort_stable"
  by (simp_all add: example_pd_def)

lemma wf_example: "wf_frame example_frame"
  by (simp add: wf_frame_def example_frame_def nrows_def)

subsection \<open>The rows of the output, and rounding\<close>






subsection \<open>The formatter, step by step\<close>

lemma print_simps [simp]:
  "heap (print es st) = heap st"
  "files (print es st) = files st"
  "stdout (print es st) = stdout st @ es"
  by (simp_all add: print_def)

lemma to_csv_simps [simp]:
  "heap (to_csv r path st) = heap st"
  "files (to_csv r path st) = (files st)(path \<mapsto> heap st ! r)"
  "stdout (to_csv r path st) = stdout st"
  by (simp_all add: to_csv_def)

lemma new_frame_simps [simp]:
  "fst (new_frame f st) = length (heap st)"
  "heap (snd (new_frame f st)) = heap st @ [f]"
  "files (snd (new_frame f st)) = files st"
  "stdout (snd (new_frame f st)) = stdout st"
  by (simp_all add: new_frame_def)

lemma set_price_simps [simp]:
  "heap (set_price r cells st) =
     (heap st)[r := map (\<lambda>(row, c). row\<lparr>d_price := c\<rparr>) (zip (heap st ! r) cells)]"
  "files (set_price r cells st) = files st"
  "stdout (set_price r cells st) = stdout st"
  by (simp_all add: set_price_def)

lemma set_total_amount_simps [simp]:
  "heap (set_total_amount r cells st) =
     (heap st)[r := map (\<lambda>(row, c). row\<lparr>d_total_amount := c\<rparr>) (zip (heap st ! r) cells)]"
  "files (set_total_amount r cells st) = files st"
  "stdout (set_total_amount r cells st) = stdout st"
  by (simp_all add: set_total_amount_def)

lemma paths_differ [simp]: "clean_path a \<noteq> results_path b" "results_path b \<noteq> clean_path a"
  by (simp_all add: clean_path_def results_path_def)

lemma apply_cells_currency_Num:
  "apply_cells currency (map Num vs) = Inr (map (\<lambda>v. Str (dollar v)) vs)"
  by (induction vs) (simp_all add: currency_def)

text \<open>Whatever the formatter does, the frames that were on the heap before stay as they were.\<close>

lemma save_heap_prefix:
  "take (length (heap st)) (heap (fst (save_transactions_summary st df name))) = heap st"
  by (simp add: save_transactions_summary_def Let_def new_frame_def split_beta
      split: sum.splits)

lemma save_clean_file:
  "files (fst (save_transactions_summary st df name)) (clean_path name) = Some (heap st ! df)"
  by (simp add: save_transactions_summary_def Let_def new_frame_def split_beta
      split: sum.splits)

lemma zip_set_price:
  "map (\<lambda>(row, c). row\<lparr>d_price := c\<rparr>) (zip (map as_frame_row rows) (map (\<lambda>v. Str (dollar v)) (map price rows))) =
     map (\<lambda>r. (as_frame_row r)\<lparr>d_price := Str (dollar (price r))\<rparr>) rows"
  by (induction rows) simp_all

lemma zip_set_total:
  "map (\<lambda>(row, c). row\<lparr>d_total_amount := c\<rparr>)
     (zip (map (\<lambda>r. (as_frame_row r)\<lparr>d_price := Str (dollar (price r))\<rparr>) rows)
          (map (\<lambda>v. Str (dollar v)) (map total_amount rows))) =
     map display_of rows"
  by (induction rows) (simp_all add: display_of_def)

lemma d_price_as_frame: "map d_price (map as_frame_row rows) = map Num (map price rows)"
  by (simp add: as_frame_row_def)

lemma d_total_as_frame:
  "map d_total_amount (map (\<lambda>r. (as_frame_row r)\<lparr>d_price := c r\<rparr>) rows) = map Num (map total_amount rows)"
  by (simp add: as_frame_row_def)

lemma save_cleaned_frame:
  assumes "df < length (heap st)" and "heap st ! df = map as_frame_row rows"
  shows "save_transactions_summary st df name =
     (st\<lparr> heap := heap st @ [map display_of rows],
          files := (files st)(clean_path name \<mapsto> map as_frame_row rows,
                              results_path name \<mapsto> map display_of rows),
          stdout := stdout st @ [CleanedSaved (clean_path name), SummarySaved (results_path name),
                                 MostRecent (take 5 (map display_of rows))] \<rparr>,
      Inr (clean_path name, results_path name))"
proof -
  let ?st1 = "print [CleanedSaved (clean_path name)] (to_csv df (clean_path name) st)"
  let ?out = "fst (new_frame (heap ?st1 ! df) ?st1)"
  let ?st2 = "snd (new_frame (heap ?st1 ! df) ?st1)"
  have out: "?out = length (heap st)" by simp
  have h2: "heap ?st2 = heap st @ [map as_frame_row rows]" using assms by simp
  have o2: "heap ?st2 ! ?out = map as_frame_row rows" by (simp only: h2) simp
  have p: "apply_cells currency (map d_price (heap ?st2 ! ?out)) = Inr (map (\<lambda>v. Str (dollar v)) (map price rows))"
    unfolding o2 d_price_as_frame by (rule apply_cells_currency_Num)
  let ?st3 = "set_price ?out (map (\<lambda>v. Str (dollar v)) (map price rows)) ?st2"
  have h3: "heap ?st3 = heap st @ [map (\<lambda>r. (as_frame_row r)\<lparr>d_price := Str (dollar (price r))\<rparr>) rows]"
  proof -
    have "heap ?st3 = (heap ?st2)[?out := map (\<lambda>(row, c). row\<lparr>d_price := c\<rparr>)
        (zip (heap ?st2 ! ?out) (map (\<lambda>v. Str (dollar v)) (map price rows)))]"
      by (rule set_price_simps(1))
    also have "\<dots> = (heap ?st2)[?out := map (\<lambda>r. (as_frame_row r)\<lparr>d_price := Str (dollar (price r))\<rparr>) rows]"
      by (simp only: o2 zip_set_price)
    also have "\<dots> = heap st @ [map (\<lambda>r. (as_frame_row r)\<lparr>d_price := Str (dollar (price r))\<rparr>) rows]"
      unfolding h2 out by simp
    finally show ?thesis .
  qed
  have o3: "heap ?st3 ! ?out = map (\<lambda>r. (as_frame_row r)\<lparr>d_price := Str (dollar (price r))\<rparr>) rows"
    by (simp only: h3) simp
  have t: "apply_cells currency (map d_total_amount (heap ?st3 ! ?out)) = Inr (map (\<lambda>v. Str (dollar v)) (map total_amount rows))"
    unfolding o3 d_total_as_frame by (rule apply_cells_currency_Num)
  let ?st4 = "set_total_amount ?out (map (\<lambda>v. Str (dollar v)) (map total_amount rows)) ?st3"
  have h4: "heap ?st4 = heap st @ [map display_of rows]"
  proof -
    have "heap ?st4 = (heap ?st3)[?out := map (\<lambda>(row, c). row\<lparr>d_total_amount := c\<rparr>)
        (zip (heap ?st3 ! ?out) (map (\<lambda>v. Str (dollar v)) (map total_amount rows)))]"
      by (rule set_total_amount_simps(1))
    also have "\<dots> = (heap ?st3)[?out := map display_of rows]"
      by (simp only: o3 zip_set_total)
    also have "\<dots> = heap st @ [map display_of rows]"
      unfolding h3 out by simp
    finally show ?thesis .
  qed
  have o4: "heap ?st4 ! ?out = map display_of rows" by (simp only: h4) simp
  have f4: "files ?st4 = (files st)(clean_path name \<mapsto> map as_frame_row rows)"
    using assms by simp
  have s4: "stdout ?st4 = stdout st @ [CleanedSaved (clean_path name)]" by simp
  let ?st5 = "print [SummarySaved (results_path name)] (to_csv ?out (results_path name) ?st4)"
  let ?st6 = "print [MostRecent (take 5 (heap ?st5 ! ?out))] ?st5"
  have eq: "save_transactions_summary st df name = (?st6, Inr (clean_path name, results_path name))"
    unfolding save_transactions_summary_def Let_def
    by (simp only: split_beta p t sum.case)
  have h6: "heap ?st6 = heap st @ [map display_of rows]" using h4 by simp
  have f6: "files ?st6 = (files st)(clean_path name \<mapsto> map as_frame_row rows,
                              results_path name \<mapsto> map display_of rows)"
    using f4 o4 by simp
  have s6: "stdout ?st6 = stdout st @ [CleanedSaved (clean_path name), SummarySaved (results_path name),
                                 MostRecent (take 5 (map display_of rows))]"
    using s4 o4 h4 by simp
  have "?st6 = st\<lparr> heap := heap st @ [map display_of rows],
          files := (files st)(clean_path name \<mapsto> map as_frame_row rows,
                              results_path name \<mapsto> map display_of rows),
          stdout := stdout st @ [CleanedSaved (clean_path name), SummarySaved (results_path name),
                                 MostRecent (take 5 (map display_of rows))] \<rparr>"
    using h6 f6 s6 by (intro state.equality) (simp_all add: print_def to_csv_def set_total_amount_def set_price_def new_frame_def)
  with eq show ?thesis by simp
qed

subsection \<open>One turn of the loop\<close>

lemma process_file_Inl:
  assumes "clean_fidelity_csv pd (raw_path name) = (out, Inl e)"
  shows "process_file pd st name =
     (st\<lparr>stdout := stdout st @ [Processing (raw_path name)] @ out @
                      [ErrorProcessing (raw_path name) e]\<rparr>, None)"
  using assms by (simp add: process_file_def Let_def print_def)

lemma process_file_Inr:
  assumes "clean_fidelity_csv pd (raw_path name) = (out, Inr rows)"
  shows "process_file pd st name =
     (st\<lparr> heap := heap st @ [map as_frame_row rows, map display_of rows],
          files := (files st)(clean_path name \<mapsto> map as_frame_row rows,
                              results_path name \<mapsto> map display_of rows),
          stdout := stdout st @ [Processing (raw_path name)] @ out @
                      [CleanedSaved (clean_path name), SummarySaved (results_path name),
                       MostRecent (take 5 (map display_of rows))] @
                      statistics (map as_frame_row rows) \<rparr>,
      Some \<lparr> p_input = raw_path name, p_clean = clean_path name,
             p_results = results_path name, p_transactions = length rows \<rparr>)"
proof -
  let ?st0 = "print [Processing (raw_path name)] st"
  let ?df = "fst (new_frame (map as_frame_row rows) (print out ?st0))"
  let ?st1 = "snd (new_frame (map as_frame_row rows) (print out ?st0))"
  have df: "?df < length (heap ?st1)" by simp
  have at: "heap ?st1 ! ?df = map as_frame_row rows" by simp
  note sv = save_cleaned_frame[OF df at, of name]
  show ?thesis
    unfolding process_file_def Let_def assms split_beta
    by (simp only: prod.case sum.case sv fst_conv snd_conv)
       (simp add: print_def new_frame_def nth_append)
qed

lemma example_pd_bad: "read_csv example_pd (raw_path ''bad.csv'') = Inr bad_frame"
  by (simp add: example_pd_def raw_path_def)

lemma example_clean_raw:
  "clean_fidelity_csv example_pd (raw_path ''a.csv'') = ([], Inr example_rows)"
  using example_clean by (simp add: raw_path_def)

subsection \<open>The statistics\<close>










lemma display_of_fields [simp]:
  "d_idx (display_of r) = idx r"
  "d_settlement_date (display_of r) = settlement_date r"
  "d_symbol (display_of r) = symbol r"
  "d_stock_name (display_of r) = stock_name r"
  "d_transaction_type (display_of r) = transaction_type r"
  "d_quantity (display_of r) = quantity r"
  "d_price (display_of r) = Str (dollar (price r))"
  "d_total_amount (display_of r) = Str (dollar (total_amount r))"
  by (simp_all add: display_of_def as_frame_row_def)

lemma as_frame_row_fields [simp]:
  "d_idx (as_frame_row r) = idx r"
  "d_settlement_date (as_frame_row r) = settlement_date r"
  "d_symbol (as_frame_row r) = symbol r"
  "d_stock_name (as_frame_row r) = stock_name r"
  "d_transaction_type (as_frame_row r) = transaction_type r"
  "d_quantity (as_frame_row r) = quantity r"
  "d_price (as_frame_row r) = Num (price r)"
  "d_total_amount (as_frame_row r) = Num (total_amount r)"
  by (simp_all add: as_frame_row_def)



subsection \<open>The loop\<close>

lemma process_file_cases:
  obtains (failed) out e where "clean_fidelity_csv pd (raw_path name) = (out, Inl e)"
  | (cleaned) out rows where "clean_fidelity_csv pd (raw_path name) = (out, Inr rows)"
  by (cases "clean_fidelity_csv pd (raw_path name)") (metis old.prod.exhaust sum.exhaust_sel surj_pair)

lemma process_file_stdout: "set (stdout st) \<subseteq> set (stdout (fst (process_file pd st name)))"
  by (cases rule: process_file_cases[of pd name]) (auto simp: process_file_Inl process_file_Inr)

lemma process_file_dom: "dom (files st) \<subseteq> dom (files (fst (process_file pd st name)))"
  by (cases rule: process_file_cases[of pd name]) (auto simp: process_file_Inl process_file_Inr)

lemma process_loop_Cons:
  "process_loop pd st (n # ns) acc =
     process_loop pd (fst (process_file pd st n)) ns
       (case snd (process_file pd st n) of None \<Rightarrow> acc | Some entry \<Rightarrow> acc @ [entry])"
  by (simp split: prod.splits option.splits)

lemma process_loop_stdout:
  "set (stdout st) \<subseteq> set (stdout (fst (process_loop pd st names acc)))"
proof (induction names arbitrary: st acc)
  case Nil
  then show ?case by simp
next
  case (Cons n ns)
  show ?case unfolding process_loop_Cons
    by (rule order_trans[OF process_file_stdout Cons.IH])
qed

lemma process_loop_dom:
  "dom (files st) \<subseteq> dom (files (fst (process_loop pd st names acc)))"
proof (induction names arbitrary: st acc)
  case Nil
  then show ?case by simp
next
  case (Cons n ns)
  show ?case unfolding process_loop_Cons
    by (rule order_trans[OF process_file_dom Cons.IH])
qed

lemma process_loop_inputs:
  "map p_input (snd (process_loop pd st names acc)) =
     map p_input acc @
     map raw_path (filter (\<lambda>n. \<not> isl (snd (clean_fidelity_csv pd (raw_path n)))) names)"
proof (induction names arbitrary: st acc)
  case Nil
  then show ?case by simp
next
  case (Cons n ns)
  show ?case
  proof (cases rule: process_file_cases[of pd n])
    case (failed out e)
    then show ?thesis by (simp add: process_file_Inl[OF failed] Cons.IH)
  next
    case (cleaned out rows)
    then show ?thesis by (simp add: process_file_Inr[OF cleaned] Cons.IH)
  qed
qed

lemma process_loop_error:
  assumes "name \<in> set names" and "clean_fidelity_csv pd (raw_path name) = (out, Inl e)"
  shows "ErrorProcessing (raw_path name) e \<in> set (stdout (fst (process_loop pd st names acc)))"
  using assms(1)
proof (induction names arbitrary: st acc)
  case Nil
  then show ?case by simp
next
  case (Cons n ns)
  show ?case
  proof (cases "n = name")
    case True
    have "ErrorProcessing (raw_path name) e \<in> set (stdout (fst (process_file pd st n)))"
      unfolding True process_file_Inl[OF assms(2)] by simp
    then show ?thesis unfolding process_loop_Cons using process_loop_stdout by blast
  next
    case False
    with Cons.prems have "name \<in> set ns" by simp
    then show ?thesis unfolding process_loop_Cons by (rule Cons.IH)
  qed
qed

lemma clean_path_eq: "clean_path a = clean_path b \<longleftrightarrow> stem a = stem b"
  by (simp add: clean_path_def)

lemma results_path_eq: "results_path a = results_path b \<longleftrightarrow> stem a = stem b"
  by (simp add: results_path_def)

lemma process_file_other:
  assumes "stem n \<noteq> stem name"
  shows "files (fst (process_file pd st n)) (clean_path name) = files st (clean_path name)"
    and "files (fst (process_file pd st n)) (results_path name) = files st (results_path name)"
  using assms
  by (cases rule: process_file_cases[of pd n];
      simp add: process_file_Inl process_file_Inr clean_path_eq results_path_eq)+

lemma process_file_written:
  assumes "clean_fidelity_csv pd (raw_path name) = (out, Inr rows)"
  shows "files (fst (process_file pd st name)) (clean_path name) = Some (map as_frame_row rows)"
    and "files (fst (process_file pd st name)) (results_path name) = Some (map display_of rows)"
  by (simp_all add: process_file_Inr[OF assms])

lemma process_loop_keeps:
  assumes "clean_fidelity_csv pd (raw_path name) = (out, Inr rows)"
    and "\<forall>n\<in>set names. stem n = stem name \<longrightarrow> n = name"
    and "files st (clean_path name) = Some (map as_frame_row rows)"
    and "files st (results_path name) = Some (map display_of rows)"
  shows "files (fst (process_loop pd st names acc)) (clean_path name) = Some (map as_frame_row rows)
       \<and> files (fst (process_loop pd st names acc)) (results_path name) = Some (map display_of rows)"
  using assms(2,3,4)
proof (induction names arbitrary: st acc)
  case Nil
  then show ?case by simp
next
  case (Cons n ns)
  have ns: "\<forall>n\<in>set ns. stem n = stem name \<longrightarrow> n = name" using Cons.prems(1) by simp
  have "files (fst (process_file pd st n)) (clean_path name) = Some (map as_frame_row rows)
      \<and> files (fst (process_file pd st n)) (results_path name) = Some (map display_of rows)"
  proof (cases "stem n = stem name")
    case True
    with Cons.prems(1) have "n = name" by simp
    then show ?thesis using process_file_written[OF assms(1)] by simp
  next
    case False
    then show ?thesis using Cons.prems(2,3) by (simp add: process_file_other)
  qed
  then show ?case unfolding process_loop_Cons using Cons.IH[OF ns] by blast
qed

lemma process_loop_writes:
  assumes "clean_fidelity_csv pd (raw_path name) = (out, Inr rows)"
    and "\<forall>n\<in>set names. stem n = stem name \<longrightarrow> n = name"
    and "name \<in> set names"
  shows "files (fst (process_loop pd st names acc)) (clean_path name) = Some (map as_frame_row rows)
       \<and> files (fst (process_loop pd st names acc)) (results_path name) = Some (map display_of rows)"
  using assms(2,3)
proof (induction names arbitrary: st acc)
  case Nil
  then show ?case by simp
next
  case (Cons n ns)
  have ns: "\<forall>n\<in>set ns. stem n = stem name \<longrightarrow> n = name" using Cons.prems(1) by simp
  show ?case
  proof (cases "n = name")
    case True
    show ?thesis unfolding process_loop_Cons True
      using process_loop_keeps[OF assms(1) ns] process_file_written[OF assms(1)] by blast
  next
    case False
    with Cons.prems(2) have "name \<in> set ns" by simp
    then show ?thesis unfolding process_loop_Cons using Cons.IH[OF ns] by blast
  qed
qed

lemma process_loop_exists:
  assumes "clean_fidelity_csv pd (raw_path name) = (out, Inr rows)" and "name \<in> set names"
  shows "clean_path name \<in> dom (files (fst (process_loop pd st names acc)))
       \<and> results_path name \<in> dom (files (fst (process_loop pd st names acc)))"
  using assms(2)
proof (induction names arbitrary: st acc)
  case Nil
  then show ?case by simp
next
  case (Cons n ns)
  show ?case
  proof (cases "n = name")
    case True
    have "clean_path name \<in> dom (files (fst (process_file pd st name)))"
      and "results_path name \<in> dom (files (fst (process_file pd st name)))"
      using process_file_written[OF assms(1)] by blast+
    then show ?thesis unfolding process_loop_Cons True using process_loop_dom by blast
  next
    case False
    with Cons.prems have "name \<in> set ns" by simp
    then show ?thesis unfolding process_loop_Cons by (rule Cons.IH)
  qed
qed

lemma bad_clean:
  "clean_fidelity_csv example_pd (raw_path ''bad.csv'') =
     ([AvailableColumns [''Date'', ''Sym'', ''Qty'', ''Price'', ''Action'']],
      Inl (MissingColumns ''orders/raw/bad.csv''))"
  by code_simp

subsection \<open>Dates and numbers\<close>







section \<open>Claims\<close>

text \<open>
  C1. In a frame that \<^verbatim>\<open>clean_fidelity_csv\<close> normalizes, take the row with index
  label \<open>i\<close> and the text \<open>action\<close> of its action cell. The row is in the output if
  and only if \<open>action\<close> contains \<^verbatim>\<open>SOLD\<close> or \<^verbatim>\<open>BOUGHT\<close> as a substring (the
  comparison is by characters, so case matters); there it is \<open>SELL\<close> whenever
  \<open>action\<close> contains \<^verbatim>\<open>SOLD\<close>, also next to \<^verbatim>\<open>BOUGHT\<close>, and \<open>BUY\<close> otherwise;
  and no row is in the output twice.
\<close>

theorem classification:
  assumes "sort_values_spec (sort_values pd)"
    and "read_csv pd file_path = Inr df0"
    and "wf_frame df0"
    and "clean_fidelity_csv pd file_path = (out, Inr rows)"
    and "i < nrows df0"
    and "action = py_str (column (strip_columns df0) ''Action'' ! i)"
  shows "((\<exists>r \<in> set rows. idx r = i) \<longleftrightarrow>
           ((\<exists>ps ss. action = ps @ ''SOLD'' @ ss) \<or> (\<exists>ps ss. action = ps @ ''BOUGHT'' @ ss)))
       \<and> (\<forall>r \<in> set rows. idx r = i \<longrightarrow>
            transaction_type r =
              (if (\<exists>ps ss. action = ps @ ''SOLD'' @ ss) then Some SELL else Some BUY))
       \<and> length (filter (\<lambda>r. idx r = i) rows) \<le> 1"
proof -
  let ?df = "strip_columns df0"
  define sold where "sold \<longleftrightarrow> (\<exists>ps ss. action = ps @ ''SOLD'' @ ss)"
  define bought where "bought \<longleftrightarrow> (\<exists>ps ss. action = ps @ ''BOUGHT'' @ ss)"
  from clean_fidelity_csv_Inr[OF assms(1,2,4)] obtain dates where
    d: "to_datetime (to_datetime1 pd) (column ?df ''Settlement Date'') = Inr dates"
    and m: "mset rows = mset (dropna (map (cleaned_row pd ?df dates) [0..<length dates]))"
    and l: "list_all (\<lambda>col. List.member (columns ?df) col) needed_columns"
    by blast
  have n: "length dates = nrows df0" using assms(3) l d by (rule length_dates)
  let ?all = "dropna (map (cleaned_row pd ?df dates) [0..<length dates])"
  have s: "set rows = set ?all" using m by (rule mset_eq_setD)
  have c: "classify (column ?df ''Action'' ! i) =
     (if sold then Some SELL else if bought then Some BUY else None)"
    unfolding assms(6) sold_def bought_def by (rule classify_cases)
  have 1: "(\<exists>r \<in> set rows. idx r = i) \<longleftrightarrow> (sold \<or> bought)"
  proof -
    have "(\<exists>r \<in> set rows. idx r = i) \<longleftrightarrow> classify (column ?df ''Action'' ! i) \<noteq> None"
      unfolding s ex_idx_dropna using assms(5) n by simp
    then show ?thesis unfolding c by (simp split: if_splits)
  qed
  have 2: "\<forall>r \<in> set rows. idx r = i \<longrightarrow>
            transaction_type r = (if sold then Some SELL else Some BUY)"
  proof (intro ballI impI)
    fix r assume "r \<in> set rows" and "idx r = i"
    then have "transaction_type r = classify (column ?df ''Action'' ! i)"
      and "classify (column ?df ''Action'' ! i) \<noteq> None"
      unfolding s set_dropna_cleaned by auto
    then show "transaction_type r = (if sold then Some SELL else Some BUY)"
      unfolding c by (simp split: if_splits)
  qed
  have 3: "length (filter (\<lambda>r. idx r = i) rows) \<le> 1"
  proof -
    have "mset (filter (\<lambda>r. idx r = i) rows) = mset (filter (\<lambda>r. idx r = i) ?all)"
      using m by (simp only: mset_filter)
    then have "length (filter (\<lambda>r. idx r = i) rows) = length (filter (\<lambda>r. idx r = i) ?all)"
      by (rule mset_eq_length)
    then show ?thesis unfolding filter_idx_dropna by simp
  qed
  from 1 2 3 show ?thesis unfolding sold_def bought_def by blast
qed

theorem classification_witness:
  "((\<exists>r \<in> set example_rows. idx r = 1) \<longleftrightarrow>
      ((\<exists>ps ss. ''YOU SOLD 5 SHARES'' = ps @ ''SOLD'' @ ss) \<or>
       (\<exists>ps ss. ''YOU SOLD 5 SHARES'' = ps @ ''BOUGHT'' @ ss)))
   \<and> length (filter (\<lambda>r. idx r = 1) example_rows) \<le> 1"
proof -
  have spec: "sort_values_spec (sort_values example_pd)"
    by (simp add: example_pd_simps sort_stable_spec)
  have i: "1 < nrows example_frame" by (simp add: nrows_def example_frame_def)
  have a: "''YOU SOLD 5 SHARES'' = py_str (column (strip_columns example_frame) ''Action'' ! 1)"
    by code_simp
  from classification[OF spec example_pd_simps(1) wf_example example_clean i a]
  show ?thesis by blast
qed









text \<open>
  C5. When a required column is missing from the header of a file after the names are
  stripped, \<^verbatim>\<open>clean_fidelity_csv\<close> prints the columns that are present and raises
  the error that names the file; the turn of the loop for that file prints the error and
  writes no file: the files (and the frames on the heap) are as before.
\<close>

theorem missing_columns:
  assumes "read_csv pd (raw_path name) = Inr df0"
    and "c \<in> set needed_columns"
    and "c \<notin> set (map (\<lambda>(n, cells). strip n) df0)"
    and "present = map (\<lambda>(n, cells). strip n) df0"
  shows "clean_fidelity_csv pd (raw_path name) =
           ([AvailableColumns present], Inl (MissingColumns (raw_path name)))
       \<and> process_file pd st name =
           (st\<lparr>stdout := stdout st @
                  [Processing (raw_path name), AvailableColumns present,
                   ErrorProcessing (raw_path name) (MissingColumns (raw_path name))]\<rparr>, None)
       \<and> files (fst (process_file pd st name)) = files st
       \<and> heap (fst (process_file pd st name)) = heap st"
proof -
  have cols: "columns (strip_columns df0) = present"
    unfolding assms(4) by (simp add: columns_def strip_columns_def split_beta)
  have "\<not> list_all (\<lambda>col. List.member (columns (strip_columns df0)) col) needed_columns"
    using assms(2,3) unfolding cols assms(4) by (auto simp: list_all_iff)
  then have c: "clean_fidelity_csv pd (raw_path name) =
           ([AvailableColumns present], Inl (MissingColumns (raw_path name)))"
    using assms(1) cols by (simp add: clean_fidelity_csv_def clean_frame_def Let_def)
  from process_file_Inl[OF c, of st] c show ?thesis by simp
qed

theorem missing_columns_witness:
  "clean_fidelity_csv example_pd (raw_path ''bad.csv'') =
     ([AvailableColumns [''Date'', ''Sym'', ''Qty'', ''Price'', ''Action'']],
      Inl (MissingColumns ''orders/raw/bad.csv''))
   \<and> process_file example_pd empty_state ''bad.csv'' =
     (empty_state\<lparr>stdout :=
        [Processing ''orders/raw/bad.csv'',
         AvailableColumns [''Date'', ''Sym'', ''Qty'', ''Price'', ''Action''],
         ErrorProcessing ''orders/raw/bad.csv'' (MissingColumns ''orders/raw/bad.csv'')]\<rparr>, None)
   \<and> files (fst (process_file example_pd empty_state ''bad.csv'')) = files empty_state"
proof -
  have c: "''Symbol'' \<in> set needed_columns" by (simp add: needed_columns_def)
  have p: "[''Date'', ''Sym'', ''Qty'', ''Price'', ''Action''] = map (\<lambda>(n, cells). strip n) bad_frame"
    by code_simp
  have n: "''Symbol'' \<notin> set (map (\<lambda>(n, cells). strip n) bad_frame)"
    unfolding p[symmetric] by simp
  have r: "raw_path ''bad.csv'' = ''orders/raw/bad.csv''" by (simp add: raw_path_def)
  have e: "stdout empty_state = []" by (simp add: empty_state_def)
  from missing_columns[OF example_pd_bad c n p, of empty_state]
  show ?thesis unfolding r e by simp
qed

text \<open>
  C6. A run over the files \<open>names\<close> of the raw directory returns normally whatever
  the files hold. Its result has one entry for each file that was normalized, in the
  order of the run, and none for a file that raised: the loop went on after every
  failure. The error of each file that raised is printed. Both output files of each
  normalized file exist after the run, and they hold its cleaned frame and its display
  frame when no other file of the run has the same stem (such a file writes to the same
  two paths).
\<close>

theorem failures_are_isolated:
  assumes "names \<noteq> []"
    and "process_raw_files pd (Some names) st = (st', res)"
  shows "\<exists>ps. res = Inr ps
     \<and> map p_input ps =
         map raw_path (filter (\<lambda>n. \<not> isl (snd (clean_fidelity_csv pd (raw_path n)))) names)
     \<and> (\<forall>name\<in>set names. \<forall>out e.
           clean_fidelity_csv pd (raw_path name) = (out, Inl e) \<longrightarrow>
             ErrorProcessing (raw_path name) e \<in> set (stdout st'))
     \<and> (\<forall>name\<in>set names. \<forall>out rows.
           clean_fidelity_csv pd (raw_path name) = (out, Inr rows) \<longrightarrow>
             clean_path name \<in> dom (files st') \<and> results_path name \<in> dom (files st')
           \<and> ((\<forall>n\<in>set names. stem n = stem name \<longrightarrow> n = name) \<longrightarrow>
                files st' (clean_path name) = Some (map as_frame_row rows)
              \<and> files st' (results_path name) = Some (map display_of rows)))"
proof -
  from assms have st': "st' = fst (process_loop pd st names [])"
    and res: "res = Inr (snd (process_loop pd st names []))"
    by (simp_all add: process_raw_files_def split_beta)
  have 1: "map p_input (snd (process_loop pd st names [])) =
         map raw_path (filter (\<lambda>n. \<not> isl (snd (clean_fidelity_csv pd (raw_path n)))) names)"
    by (simp add: process_loop_inputs)
  have 2: "\<forall>name\<in>set names. \<forall>out e.
           clean_fidelity_csv pd (raw_path name) = (out, Inl e) \<longrightarrow>
             ErrorProcessing (raw_path name) e \<in> set (stdout st')"
    unfolding st' using process_loop_error by blast
  have 3: "\<forall>name\<in>set names. \<forall>out rows.
           clean_fidelity_csv pd (raw_path name) = (out, Inr rows) \<longrightarrow>
             clean_path name \<in> dom (files st') \<and> results_path name \<in> dom (files st')
           \<and> ((\<forall>n\<in>set names. stem n = stem name \<longrightarrow> n = name) \<longrightarrow>
                files st' (clean_path name) = Some (map as_frame_row rows)
              \<and> files st' (results_path name) = Some (map display_of rows))"
  proof (intro ballI allI impI)
    fix name out rows
    assume n: "name \<in> set names" and c: "clean_fidelity_csv pd (raw_path name) = (out, Inr rows)"
    have a: "clean_path name \<in> dom (files st') \<and> results_path name \<in> dom (files st')"
      unfolding st' using c n by (rule process_loop_exists)
    have b: "files st' (clean_path name) = Some (map as_frame_row rows)
              \<and> files st' (results_path name) = Some (map display_of rows)"
      if "\<forall>n\<in>set names. stem n = stem name \<longrightarrow> n = name"
      unfolding st' using c that n by (rule process_loop_writes)
    from a b show "clean_path name \<in> dom (files st') \<and> results_path name \<in> dom (files st')
           \<and> ((\<forall>n\<in>set names. stem n = stem name \<longrightarrow> n = name) \<longrightarrow>
                files st' (clean_path name) = Some (map as_frame_row rows)
              \<and> files st' (results_path name) = Some (map display_of rows))"
      by blast
  qed
  from res 1 2 3 show ?thesis by blast
qed

theorem failures_are_isolated_witness:
  "\<exists>ps. snd (process_raw_files example_pd (Some [''bad.csv'', ''a.csv'']) empty_state) = Inr ps
     \<and> map p_input ps = [''orders/raw/a.csv'']
     \<and> ErrorProcessing (raw_path ''bad.csv'') (MissingColumns ''orders/raw/bad.csv'')
          \<in> set (stdout (fst (process_raw_files example_pd (Some [''bad.csv'', ''a.csv'']) empty_state)))
     \<and> files (fst (process_raw_files example_pd (Some [''bad.csv'', ''a.csv'']) empty_state))
          (clean_path ''a.csv'') = Some (map as_frame_row example_rows)
     \<and> files (fst (process_raw_files example_pd (Some [''bad.csv'', ''a.csv'']) empty_state))
          (results_path ''a.csv'') = Some (map display_of example_rows)"
proof -
  let ?run = "process_raw_files example_pd (Some [''bad.csv'', ''a.csv'']) empty_state"
  let ?names = "[''bad.csv'', ''a.csv'']"
  have ne: "?names \<noteq> []" by simp
  have s: "?run = (fst ?run, snd ?run)" by simp
  have st: "stem ''bad.csv'' = ''bad''" "stem ''a.csv'' = ''a''" by code_simp+
  have u: "\<forall>n\<in>set ?names. stem n = stem ''a.csv'' \<longrightarrow> n = ''a.csv''"
    by (simp add: st)
  have f: "filter (\<lambda>n. \<not> isl (snd (clean_fidelity_csv example_pd (raw_path n)))) ?names = [''a.csv'']"
    by (simp add: bad_clean example_clean_raw)
  from failures_are_isolated[OF ne s] obtain ps where
    r: "snd ?run = Inr ps"
    and i: "map p_input ps =
         map raw_path (filter (\<lambda>n. \<not> isl (snd (clean_fidelity_csv example_pd (raw_path n)))) ?names)"
    and e: "\<forall>name\<in>set ?names. \<forall>out e.
           clean_fidelity_csv example_pd (raw_path name) = (out, Inl e) \<longrightarrow>
             ErrorProcessing (raw_path name) e \<in> set (stdout (fst ?run))"
    and w: "\<forall>name\<in>set ?names. \<forall>out rows.
           clean_fidelity_csv example_pd (raw_path name) = (out, Inr rows) \<longrightarrow>
             clean_path name \<in> dom (files (fst ?run)) \<and> results_path name \<in> dom (files (fst ?run))
           \<and> ((\<forall>n\<in>set ?names. stem n = stem name \<longrightarrow> n = name) \<longrightarrow>
                files (fst ?run) (clean_path name) = Some (map as_frame_row rows)
              \<and> files (fst ?run) (results_path name) = Some (map display_of rows))"
    by blast
  from i have i': "map p_input ps = [''orders/raw/a.csv'']"
    unfolding f by (simp add: raw_path_def)
  have m1: "''bad.csv'' \<in> set ?names" and m2: "''a.csv'' \<in> set ?names" by simp_all
  from e[rule_format, OF m1 bad_clean]
  have e': "ErrorProcessing (raw_path ''bad.csv'') (MissingColumns ''orders/raw/bad.csv'')
          \<in> set (stdout (fst ?run))" .
  from w[rule_format, OF m2 example_clean_raw]
  have "(\<forall>n\<in>set ?names. stem n = stem ''a.csv'' \<longrightarrow> n = ''a.csv'') \<longrightarrow>
                files (fst ?run) (clean_path ''a.csv'') = Some (map as_frame_row example_rows)
              \<and> files (fst ?run) (results_path ''a.csv'') = Some (map display_of example_rows)"
    by (rule conjunct2[OF conjunct2])
  from mp[OF this u]
  have w': "files (fst ?run) (clean_path ''a.csv'') = Some (map as_frame_row example_rows)
              \<and> files (fst ?run) (results_path ''a.csv'') = Some (map display_of example_rows)" .
  show ?thesis
    apply (rule exI[of _ ps])
    using r i' e' w' apply (intro conjI)
    apply (elim conjE | assumption)+
    done
qed





text \<open>
  C9. \<^verbatim>\<open>save_transactions_summary\<close> leaves the cleaned frame as it was: the frame
  behind \<^verbatim>\<open>df\<close>, and every other frame that was on the heap, is the same after the
  call, whatever the call returns, and it is the frame in the canonical file. For a
  frame that \<^verbatim>\<open>clean_fidelity_csv\<close> returned, the currency strings are in one new
  frame, which is the one written to the display file, and the price and the total
  amount of \<^verbatim>\<open>df\<close> are still the numbers.
\<close>

theorem formatting_leaves_frame:
  assumes "df < length (heap st)"
    and "save_transactions_summary st df name = (st', res)"
  shows "heap st' ! df = heap st ! df
       \<and> take (length (heap st)) (heap st') = heap st
       \<and> files st' (clean_path name) = Some (heap st ! df)
       \<and> (\<forall>rows. heap st ! df = map as_frame_row rows \<longrightarrow>
            heap st' = heap st @ [map display_of rows]
          \<and> files st' (results_path name) = Some (heap st' ! length (heap st))
          \<and> map d_price (heap st' ! df) = map (\<lambda>r. Num (price r)) rows
          \<and> map d_total_amount (heap st' ! df) = map (\<lambda>r. Num (total_amount r)) rows)"
proof -
  have st': "st' = fst (save_transactions_summary st df name)" using assms(2) by simp
  have t: "take (length (heap st)) (heap st') = heap st"
    unfolding st' by (rule save_heap_prefix)
  have "heap st' ! df = take (length (heap st)) (heap st') ! df"
    using assms(1) by simp
  then have d: "heap st' ! df = heap st ! df" unfolding t .
  have f: "files st' (clean_path name) = Some (heap st ! df)"
    unfolding st' by (rule save_clean_file)
  have r: "heap st' = heap st @ [map display_of rows]
          \<and> files st' (results_path name) = Some (heap st' ! length (heap st))
          \<and> map d_price (heap st' ! df) = map (\<lambda>r. Num (price r)) rows
          \<and> map d_total_amount (heap st' ! df) = map (\<lambda>r. Num (total_amount r)) rows"
    if h: "heap st ! df = map as_frame_row rows" for rows
  proof -
    from save_cleaned_frame[OF assms(1) h, of name] st'
    have "heap st' = heap st @ [map display_of rows]"
      and "files st' (results_path name) = Some (map display_of rows)"
      by simp_all
    moreover have "map d_price (heap st' ! df) = map (\<lambda>r. Num (price r)) rows"
      and "map d_total_amount (heap st' ! df) = map (\<lambda>r. Num (total_amount r)) rows"
      unfolding d h by (simp_all add: as_frame_row_def)
    ultimately show ?thesis by simp
  qed
  from d t f r show ?thesis by blast
qed

theorem formatting_leaves_frame_witness:
  "heap (fst (save_transactions_summary example_state 0 ''a.csv'')) ! 0 = map as_frame_row example_rows
   \<and> map d_price (heap (fst (save_transactions_summary example_state 0 ''a.csv'')) ! 0) =
       [Num (Some (39 / 2)), Num (Some (3 / 25))]
   \<and> map d_total_amount (heap (fst (save_transactions_summary example_state 0 ''a.csv'')) ! 0) =
       [Num None, Num (Some (9 / 25))]
   \<and> heap (fst (save_transactions_summary example_state 0 ''a.csv'')) =
       [map as_frame_row example_rows, map display_of example_rows]"
proof -
  have d: "0 < length (heap example_state)" by (simp add: example_state_def)
  have h: "heap example_state ! 0 = map as_frame_row example_rows" by (simp add: example_state_def)
  have hh: "heap example_state = [map as_frame_row example_rows]" by (simp add: example_state_def)
  have s: "save_transactions_summary example_state 0 ''a.csv'' =
     (fst (save_transactions_summary example_state 0 ''a.csv''),
      snd (save_transactions_summary example_state 0 ''a.csv''))" by simp
  let ?h = "heap (fst (save_transactions_summary example_state 0 ''a.csv''))"
  note t = formatting_leaves_frame[OF d s]
  from t have 1: "?h ! 0 = heap example_state ! 0" by blast
  from t have "heap example_state ! 0 = map as_frame_row example_rows \<longrightarrow>
            ?h = heap example_state @ [map display_of example_rows]
          \<and> map d_price (?h ! 0) = map (\<lambda>r. Num (price r)) example_rows
          \<and> map d_total_amount (?h ! 0) = map (\<lambda>r. Num (total_amount r)) example_rows"
    by blast
  with h have 2: "?h = heap example_state @ [map display_of example_rows]"
    and 3: "map d_price (?h ! 0) = map (\<lambda>r. Num (price r)) example_rows"
    and 4: "map d_total_amount (?h ! 0) = map (\<lambda>r. Num (total_amount r)) example_rows"
    by blast+
  have 5: "map (\<lambda>r. Num (price r)) example_rows = [Num (Some (39 / 2)), Num (Some (3 / 25))]"
    and 6: "map (\<lambda>r. Num (total_amount r)) example_rows = [Num None, Num (Some (9 / 25))]"
    by (simp_all add: example_rows_def)
  from 1 2 3 4 show ?thesis unfolding 5 6 h hh by simp
qed

text \<open>
  C10. When a file is normalized, the turn of the loop completes without an exception,
  and the display file has a row for every normalized row, in the same position and with
  the same index label; where the price of the normalized row is missing the display
  row's price is the string \<^verbatim>\<open>$nan\<close>, and likewise for the total amount.
\<close>

theorem null_money_rendered_nan:
  assumes "clean_fidelity_csv pd (raw_path name) = (out, Inr rows)"
    and "process_file pd st name = (st', res)"
  shows "res \<noteq> None
       \<and> (\<exists>D. files st' (results_path name) = Some D \<and> length D = length rows
            \<and> (\<forall>i<length rows.
                  d_idx (D ! i) = idx (rows ! i)
                \<and> (price (rows ! i) = None \<longrightarrow> d_price (D ! i) = Str ''$nan'')
                \<and> (total_amount (rows ! i) = None \<longrightarrow> d_total_amount (D ! i) = Str ''$nan'')))"
proof -
  from process_file_Inr[OF assms(1), of st] assms(2)
  have "res \<noteq> None" and f: "files st' (results_path name) = Some (map display_of rows)"
    by auto
  moreover have "d_idx (map display_of rows ! i) = idx (rows ! i)
                \<and> (price (rows ! i) = None \<longrightarrow> d_price (map display_of rows ! i) = Str ''$nan'')
                \<and> (total_amount (rows ! i) = None \<longrightarrow> d_total_amount (map display_of rows ! i) = Str ''$nan'')"
    if "i < length rows" for i
    using that by (simp add: display_of_def as_frame_row_def dollar_def)
  ultimately show ?thesis by simp
qed

theorem null_money_rendered_nan_witness:
  "snd (process_file example_pd empty_state ''a.csv'') \<noteq> None
   \<and> (\<exists>D. files (fst (process_file example_pd empty_state ''a.csv'')) (results_path ''a.csv'') = Some D
          \<and> length D = 2 \<and> d_idx (D ! 0) = 1 \<and> d_total_amount (D ! 0) = Str ''$nan'')"
proof -
  have s: "process_file example_pd empty_state ''a.csv'' =
     (fst (process_file example_pd empty_state ''a.csv''),
      snd (process_file example_pd empty_state ''a.csv''))" by simp
  have l: "length example_rows = 2" and i: "idx (example_rows ! 0) = 1"
    and t: "total_amount (example_rows ! 0) = None"
    by (simp_all add: example_rows_def)
  from null_money_rendered_nan[OF example_clean_raw s] obtain D where
    r: "snd (process_file example_pd empty_state ''a.csv'') \<noteq> None"
    and f: "files (fst (process_file example_pd empty_state ''a.csv'')) (results_path ''a.csv'') = Some D"
    and n: "length D = length example_rows"
    and a: "\<forall>i<length example_rows.
                  d_idx (D ! i) = idx (example_rows ! i)
                \<and> (price (example_rows ! i) = None \<longrightarrow> d_price (D ! i) = Str ''$nan'')
                \<and> (total_amount (example_rows ! i) = None \<longrightarrow> d_total_amount (D ! i) = Str ''$nan'')"
    by blast
  from a l have "d_idx (D ! 0) = idx (example_rows ! 0)"
    and "total_amount (example_rows ! 0) = None \<longrightarrow> d_total_amount (D ! 0) = Str ''$nan''"
    by simp_all
  with i t have "d_idx (D ! 0) = 1" and "d_total_amount (D ! 0) = Str ''$nan''" by simp_all
  with r f n l show ?thesis by simp
qed

end
